theory Spec2Isabelle
  imports Main "HOL-Library.Multiset" "HOL-Library.Product_Lexorder"
begin

section \<open>The extension data model\<close>

text \<open>
  The aggregating extension of \<^verbatim>\<open>src/unnamed/part_000\<close> reads three things of a
  visited extension: \<^verbatim>\<open>extension.parameter.createNodeViews\<close>,
  \<^verbatim>\<open>extension.settings.exclude.inputRules\<close> and, through \<^verbatim>\<open>getParameter\<close>, a
  parameter object. An input rule and the parameter object are opaque values of the
  editing engine: the type variables \<open>'r\<close> and \<open>'p\<close>.

  \<^verbatim>\<open>inputRules?: boolean\<close> of \<^verbatim>\<open>Remirror.ExcludeOptions\<close> is an optional
  boolean: \<open>None\<close> is \<^verbatim>\<open>undefined\<close>.
\<close>

datatype error = TypeError | ConfigurationError

record ExcludeOptions =
  inputRules :: "bool option"

text \<open>
  The manager-wide settings and an extension's settings both carry an \<^verbatim>\<open>exclude\<close>
  object. The source reads the manager's one with \<^verbatim>\<open>?.\<close> (it may be
  \<^verbatim>\<open>undefined\<close>) and the extension's one with a plain \<^verbatim>\<open>.\<close>; the model
  lets either be absent, so that the plain access can fail as it does in JavaScript.
\<close>

record Settings =
  exclude :: "ExcludeOptions option"

text \<open>
  What an extension is apart from its hooks. A hook is handed the extension it belongs
  to; a HOL function type cannot mention the record it is a field of, so the hook
  receives this part of the extension.
\<close>

record ExtensionInfo =
  name :: string
  priority :: int
  settings :: Settings

record ('p, 'r) ExtensionCreatorMethods =
  createNodeViews :: "('p \<Rightarrow> ExtensionInfo \<Rightarrow> 'r list) option"

record ('p, 'r) Extension = ExtensionInfo +
  parameter :: "('p, 'r) ExtensionCreatorMethods"

definition info :: "('p, 'r) Extension \<Rightarrow> ExtensionInfo" where
  "info extension =
     \<lparr>name = name extension, priority = priority extension, settings = settings extension\<rparr>"

section \<open>The aggregating extension\<close>

text \<open>JavaScript truthiness of a value of type \<^verbatim>\<open>boolean | undefined\<close>.\<close>

definition truthy :: "bool option \<Rightarrow> bool" where
  "truthy v = (case v of None \<Rightarrow> False | Some b \<Rightarrow> b)"

text \<open>\<^verbatim>\<open>managerSettings.exclude?.inputRules\<close>: \<^verbatim>\<open>undefined\<close> when there is no exclude map.\<close>

definition managerExclude :: "Settings \<Rightarrow> bool option" where
  "managerExclude managerSettings =
     (case exclude managerSettings of None \<Rightarrow> None | Some ex \<Rightarrow> inputRules ex)"

text \<open>
  The condition of the \<^verbatim>\<open>if\<close> in \<^verbatim>\<open>forEachExtension\<close> (lines 29 to 36). The three
  operands of \<^verbatim>\<open>||\<close> are evaluated from left to right and the evaluation stops at the
  first truthy one. The third operand reads a property of
  \<^verbatim>\<open>extension.settings.exclude\<close>, which throws a TypeError when that object is
  \<^verbatim>\<open>undefined\<close>.
\<close>

definition skipCondition :: "Settings \<Rightarrow> ('p, 'r) Extension \<Rightarrow> error + bool" where
  "skipCondition managerSettings extension =
     (if truthy (managerExclude managerSettings) then Inr True
      else if createNodeViews (parameter extension) = None then Inr True
      else (case exclude (settings extension) of
              None \<Rightarrow> Inl TypeError
            | Some ex \<Rightarrow> Inr (truthy (inputRules ex))))"

text \<open>
  \<^verbatim>\<open>const rules: InputRule[] = []\<close> makes a new array at every call of
  \<^verbatim>\<open>onInitialize\<close>, and the two callbacks it returns share that array. The arrays
  made so far are the heap, an array's address is its index, and \<^verbatim>\<open>onInitialize\<close>
  returns the address its callbacks have captured.
\<close>

type_synonym 'r heap = "'r list list"

definition onInitialize :: "'r heap \<Rightarrow> nat \<times> 'r heap" where
  "onInitialize h = (length h, h @ [[]])"

text \<open>\<^verbatim>\<open>rules.push(...xs)\<close> on the array at address \<open>a\<close>.\<close>

definition push :: "nat \<Rightarrow> 'r list \<Rightarrow> 'r heap \<Rightarrow> 'r heap" where
  "push a xs h = h[a := h ! a @ xs]"

definition forEachExtension ::
  "Settings \<Rightarrow> (('p, 'r) Extension \<Rightarrow> 'p) \<Rightarrow> nat \<Rightarrow> ('p, 'r) Extension \<Rightarrow> 'r heap \<Rightarrow> error + 'r heap"
where
  "forEachExtension managerSettings getParameter rules extension h =
     (case skipCondition managerSettings extension of
        Inl e \<Rightarrow> Inl e
      | Inr True \<Rightarrow> Inr h
      | Inr False \<Rightarrow>
          (case createNodeViews (parameter extension) of
             None \<Rightarrow> Inl TypeError
           | Some create \<Rightarrow>
               Inr (push rules (create (getParameter extension) (info extension)) h)))"

text \<open>
  \<^verbatim>\<open>inputRules({ rules })\<close> of prosemirror-inputrules builds one plugin from a rule
  sequence; the other plugins of a manager are opaque. The plugin is modelled by the
  content the array has when the plugin is built: \<^verbatim>\<open>afterExtensionLoop\<close> builds it
  after the last visit, and nothing pushes to the array later.
\<close>

datatype 'r Plugin = InputRulesPlugin "'r list" | OtherPlugin nat

text \<open>
  Modelled from the spec: the \<^verbatim>\<open>addPlugins\<close> callback belongs to the Manager, which
  is not under src/; by section 4.2 it appends its arguments to the manager's shared
  ordered plugin list. The model keeps the argument list of every call, in call order;
  the plugin list is their concatenation.
\<close>

type_synonym 'r addPluginsCalls = "'r Plugin list list"

definition addPlugins :: "'r Plugin list \<Rightarrow> 'r addPluginsCalls \<Rightarrow> 'r addPluginsCalls" where
  "addPlugins ps calls = calls @ [ps]"

definition pluginList :: "'r addPluginsCalls \<Rightarrow> 'r Plugin list" where
  "pluginList calls = concat calls"

definition afterExtensionLoop :: "nat \<Rightarrow> 'r heap \<Rightarrow> 'r addPluginsCalls \<Rightarrow> 'r addPluginsCalls" where
  "afterExtensionLoop rules h calls = addPlugins [InputRulesPlugin (h ! rules)] calls"

text \<open>
  Modelled from the spec: the loop that drives the two callbacks is the Manager's, which
  is not under src/. By section 4.2 it calls \<^verbatim>\<open>forEachExtension\<close> once for each
  visited extension and then \<^verbatim>\<open>afterExtensionLoop\<close> once, and an exception thrown
  by a hook ends the initialization. The visited extensions, in visiting order, are a
  parameter.
\<close>

fun extensionLoop ::
  "Settings \<Rightarrow> (('p, 'r) Extension \<Rightarrow> 'p) \<Rightarrow> nat \<Rightarrow> ('p, 'r) Extension list \<Rightarrow> 'r heap \<Rightarrow> error + 'r heap"
where
  "extensionLoop managerSettings getParameter rules [] h = Inr h"
| "extensionLoop managerSettings getParameter rules (extension # extensions) h =
     (case forEachExtension managerSettings getParameter rules extension h of
        Inl e \<Rightarrow> Inl e
      | Inr h' \<Rightarrow> extensionLoop managerSettings getParameter rules extensions h')"

text \<open>
  The state an initialization works on: the arrays allocated so far and the calls of
  \<^verbatim>\<open>addPlugins\<close> the manager has received. \<open>initialize\<close> returns the address of
  the run's \<^verbatim>\<open>rules\<close> array with the new state.
\<close>

record 'r World =
  arrays :: "'r heap"
  pluginCalls :: "'r addPluginsCalls"

definition initialize ::
  "Settings \<Rightarrow> (('p, 'r) Extension \<Rightarrow> 'p) \<Rightarrow> ('p, 'r) Extension list \<Rightarrow> 'r World \<Rightarrow> error + nat \<times> 'r World"
where
  "initialize managerSettings getParameter extensions w =
     (case onInitialize (arrays w) of
        (rules, h) \<Rightarrow>
          (case extensionLoop managerSettings getParameter rules extensions h of
             Inl e \<Rightarrow> Inl e
           | Inr h' \<Rightarrow>
               Inr (rules, \<lparr>arrays = h', pluginCalls = afterExtensionLoop rules h' (pluginCalls w)\<rparr>)))"

text \<open>The rule sequence a finished run has accumulated.\<close>

definition rulesOf :: "nat \<times> 'r World \<Rightarrow> 'r list" where
  "rulesOf r = arrays (snd r) ! fst r"

text \<open>
  The extension the file exports. \<^verbatim>\<open>ExtensionFactory.plain\<close> is not under src/: the
  descriptor it is given declares \<^verbatim>\<open>name\<close>, \<^verbatim>\<open>defaultPriority\<close> and
  \<^verbatim>\<open>onInitialize\<close> and no \<^verbatim>\<open>createNodeViews\<close>. The value of
  \<^verbatim>\<open>ExtensionPriority.Low\<close> and the settings the factory resolves are parameters.
\<close>

definition NodeViewsExtension :: "int \<Rightarrow> Settings \<Rightarrow> ('p, 'r) Extension" where
  "NodeViewsExtension low resolved =
     \<lparr>name = ''inputRules'', priority = low, settings = resolved,
      parameter = \<lparr>createNodeViews = None\<rparr>\<rparr>"

section \<open>The menu bar of the editor\<close>

text \<open>
  \<^verbatim>\<open>wysiwyg-menu.tsx\<close>. An icon component is a value of \<open>Icon\<close>; attributes such as
  \<^verbatim>\<open>{ level: 1 }\<close> are a list of named numbers; an optional property is an option.
\<close>

datatype Icon =
    BoldIcon | CodeIcon | H1Icon | H2Icon | H3Icon | ItalicIcon | LinkIcon | ListOlIcon
  | ListUlIcon | QuoteRightIcon | RedoAltIcon | RulerHorizontalIcon | StrikethroughIcon
  | TimesIcon | UnderlineIcon | UndoAltIcon

type_synonym Attrs = "(string \<times> int) list"

definition menuItems :: "(string \<times> (Icon \<times> string option) \<times> Attrs option) list" where
  "menuItems =
     [(''bold'', (BoldIcon, None), None),
      (''italic'', (ItalicIcon, None), None),
      (''underline'', (UnderlineIcon, None), None),
      (''strike'', (StrikethroughIcon, None), None),
      (''toggleHeading'', (H1Icon, Some ''1''), Some [(''level'', 1)]),
      (''toggleHeading'', (H2Icon, Some ''2''), Some [(''level'', 2)]),
      (''toggleHeading'', (H3Icon, Some ''3''), Some [(''level'', 3)]),
      (''undo'', (UndoAltIcon, None), None),
      (''redo'', (RedoAltIcon, None), None),
      (''toggleBulletList'', (ListUlIcon, None), None),
      (''toggleOrderedList'', (ListOlIcon, None), None),
      (''blockquote'', (QuoteRightIcon, None), None),
      (''toggleCodeBlock'', (CodeIcon, None), None),
      (''horizontalRule'', (RulerHorizontalIcon, None), None)]"

text \<open>
  What \<^verbatim>\<open>actions[name]\<close> gives, as far as the menu reads it: the predicates
  \<^verbatim>\<open>isActive(attrs)\<close> and \<^verbatim>\<open>isEnabled()\<close> of the command. The type
  \<^verbatim>\<open>ActionNames<WysiwygExtensions>\<close> of the names is not under src/, so
  \<^verbatim>\<open>actions\<close> is a function on all names.
\<close>

record Action =
  isActive :: "Attrs option \<Rightarrow> bool"
  isEnabled :: "unit \<Rightarrow> bool"

text \<open>
  A click handler: \<^verbatim>\<open>runAction(actions[name], attrs)\<close>, or a callback received as a
  property.
\<close>

datatype Handler = RunAction string "Attrs option" | Callback string

text \<open>
  \<^verbatim>\<open>ButtonState\<close> is a union of string literals. The parameter \<^verbatim>\<open>inverse = false\<close>
  of \<^verbatim>\<open>getButtonState\<close> takes its default when the argument is \<^verbatim>\<open>undefined\<close>.
\<close>

type_synonym ButtonState = string

definition getButtonState :: "bool \<Rightarrow> bool option \<Rightarrow> ButtonState" where
  "getButtonState active inverseArg =
     (let inv = (case inverseArg of None \<Rightarrow> False | Some b \<Rightarrow> b)
      in if active then (if inv then ''active-inverse'' else ''active-default'')
         else if inv then ''inverse'' else ''default'')"

text \<open>
  The properties a \<^verbatim>\<open>MenuItem\<close> is rendered with, and the elements of the toolbar
  \<^verbatim>\<open>MenuBar\<close> returns: one for each entry of \<^verbatim>\<open>menuItems\<close>, then the link item.
\<close>

record MenuItemProps =
  indexProp :: "nat option"
  keyProp :: "nat option"
  IconProp :: Icon
  subText :: "string option"
  state :: ButtonState
  disabled :: "bool option"
  onClick :: Handler
  inverseProp :: "bool option"
  withPadding :: "string option"

definition MenuBar :: "(string \<Rightarrow> Action) \<Rightarrow> bool option \<Rightarrow> Handler \<Rightarrow> MenuItemProps list" where
  "MenuBar actions inverseArg activateLink =
     map (\<lambda>(i, (actionName, (icon, sub), attrs)).
            \<lparr>indexProp = Some i, keyProp = Some i, IconProp = icon, subText = sub,
             state = getButtonState (isActive (actions actionName) attrs) inverseArg,
             disabled = Some (\<not> isEnabled (actions actionName) ()),
             onClick = RunAction actionName attrs,
             inverseProp = None, withPadding = Some ''right''\<rparr>)
         (enumerate 0 menuItems) @
     [\<lparr>indexProp = None, keyProp = None, IconProp = LinkIcon, subText = None,
       state = getButtonState (isActive (actions ''updateLink'') None) inverseArg,
       disabled = Some (\<not> isEnabled (actions ''updateLink'') ()),
       onClick = activateLink,
       inverseProp = None, withPadding = Some ''right''\<rparr>]"

text \<open>
  \<^verbatim>\<open>MenuItem\<close> renders an \<^verbatim>\<open>IconButton\<close> around its icon; \<^verbatim>\<open>inverse\<close> and
  \<^verbatim>\<open>disabled\<close> default to \<^verbatim>\<open>false\<close>.
\<close>

record IconButton =
  buttonOnClick :: Handler
  buttonState :: ButtonState
  buttonDisabled :: bool
  buttonWithPadding :: "string option"
  buttonIndex :: "nat option"
  buttonIcon :: Icon
  iconInverse :: bool

definition MenuItem :: "MenuItemProps \<Rightarrow> IconButton" where
  "MenuItem props =
     \<lparr>buttonOnClick = onClick props, buttonState = state props,
      buttonDisabled = (case disabled props of None \<Rightarrow> False | Some d \<Rightarrow> d),
      buttonWithPadding = withPadding props, buttonIndex = indexProp props,
      buttonIcon = IconProp props,
      iconInverse = (case inverseProp props of None \<Rightarrow> False | Some b \<Rightarrow> b)\<rparr>"

section \<open>The Manager\<close>

text \<open>
  Modelled from the spec: the Manager is not under src/. By sections 3, 4.2 and 7 of the
  specification, constructing a Manager from the registered extensions fails with a
  ConfigurationError when two of them have the same name, before any hook runs;
  otherwise the extensions are ordered by (priority ascending, registration index
  ascending) and, for each extension in that order, its \<^verbatim>\<open>onInitialize\<close> runs, then
  its \<^verbatim>\<open>forEachExtension\<close> once for every extension in that order, then its
  \<^verbatim>\<open>afterExtensionLoop\<close>. \<open>hooksRun\<close> is the sequence of hook calls made, each with
  the name of the extension whose hook it is (and of the visited extension).
\<close>

datatype HookCall =
    OnInitialize string
  | ForEachExtension string string
  | AfterExtensionLoop string

definition sortExtensions :: "('p, 'r) Extension list \<Rightarrow> ('p, 'r) Extension list" where
  "sortExtensions extensions =
     map snd (sort_key (\<lambda>(index, extension). (priority extension, index))
       (enumerate 0 extensions))"

definition hookCalls :: "('p, 'r) Extension list \<Rightarrow> HookCall list" where
  "hookCalls ordered =
     concat (map (\<lambda>requesting.
       OnInitialize (name requesting) #
       map (\<lambda>visited. ForEachExtension (name requesting) (name visited)) ordered @
       [AfterExtensionLoop (name requesting)]) ordered)"

record ('p, 'r) Construction =
  hooksRun :: "HookCall list"
  outcome :: "error + ('p, 'r) Extension list"

definition createManager :: "('p, 'r) Extension list \<Rightarrow> ('p, 'r) Construction" where
  "createManager extensions =
     (if \<not> distinct (map name extensions)
      then \<lparr>hooksRun = [], outcome = Inl ConfigurationError\<rparr>
      else (let ordered = sortExtensions extensions
            in \<lparr>hooksRun = hookCalls ordered, outcome = Inr ordered\<rparr>))"

fun visitedBy :: "string \<Rightarrow> HookCall list \<Rightarrow> string list" where
  "visitedBy requesting [] = []"
| "visitedBy requesting (ForEachExtension r v # calls) =
     (if r = requesting then v # visitedBy requesting calls else visitedBy requesting calls)"
| "visitedBy requesting (c # calls) = visitedBy requesting calls"

section \<open>The skip rule, as the specification words it\<close>

definition managerExcludesInputRules :: "Settings \<Rightarrow> bool" where
  "managerExcludesInputRules managerSettings =
     (case exclude managerSettings of None \<Rightarrow> False | Some ex \<Rightarrow> inputRules ex = Some True)"

definition lacksCreateNodeViews :: "('p, 'r) Extension \<Rightarrow> bool" where
  "lacksCreateNodeViews extension = (createNodeViews (parameter extension) = None)"

definition extensionExcludesInputRules :: "('p, 'r) Extension \<Rightarrow> bool" where
  "extensionExcludesInputRules extension =
     (case exclude (settings extension) of None \<Rightarrow> False | Some ex \<Rightarrow> inputRules ex = Some True)"

definition skipped :: "Settings \<Rightarrow> ('p, 'r) Extension \<Rightarrow> bool" where
  "skipped managerSettings extension \<longleftrightarrow>
     managerExcludesInputRules managerSettings \<or> lacksCreateNodeViews extension \<or>
     extensionExcludesInputRules extension"

text \<open>What the \<^verbatim>\<open>createNodeViews\<close> hook of an extension returns (nothing without the hook).\<close>

definition contribution :: "(('p, 'r) Extension \<Rightarrow> 'p) \<Rightarrow> ('p, 'r) Extension \<Rightarrow> 'r list" where
  "contribution getParameter extension =
     (case createNodeViews (parameter extension) of
        None \<Rightarrow> []
      | Some create \<Rightarrow> create (getParameter extension) (info extension))"

text \<open>The contributions of the extensions that are not skipped, one after the other.\<close>

definition harvest ::
  "Settings \<Rightarrow> (('p, 'r) Extension \<Rightarrow> 'p) \<Rightarrow> ('p, 'r) Extension list \<Rightarrow> 'r list"
where
  "harvest managerSettings getParameter extensions =
     concat (map (contribution getParameter)
       (filter (\<lambda>extension. \<not> skipped managerSettings extension) extensions))"

text \<open>The settings of an extension carry an exclude object.\<close>

definition hasExclude :: "('p, 'r) Extension \<Rightarrow> bool" where
  "hasExclude extension = (exclude (settings extension) \<noteq> None)"

text \<open>The visits on which the unguarded access is reached with nothing to read from.\<close>

definition faulting :: "Settings \<Rightarrow> ('p, 'r) Extension \<Rightarrow> bool" where
  "faulting managerSettings extension \<longleftrightarrow>
     \<not> managerExcludesInputRules managerSettings \<and> \<not> lacksCreateNodeViews extension \<and>
     \<not> hasExclude extension"

text \<open>
  The active variants of the button state.
\<close>

definition activeVariant :: "ButtonState \<Rightarrow> bool" where
  "activeVariant s \<longleftrightarrow> s = ''active-default'' \<or> s = ''active-inverse''"

section \<open>Two initializations in a row\<close>

text \<open>
  Two managers built one after the other in the same program: the second initialization
  starts on the arrays the first one has left behind, with a manager that has received
  the same calls of \<^verbatim>\<open>addPlugins\<close> as the first manager had at its start.
\<close>

definition initializeTwice ::
  "Settings \<Rightarrow> (('p, 'r) Extension \<Rightarrow> 'p) \<Rightarrow> ('p, 'r) Extension list \<Rightarrow> 'r World \<Rightarrow>
     error + (nat \<times> 'r World) \<times> (nat \<times> 'r World)"
where
  "initializeTwice managerSettings getParameter extensions w =
     (case initialize managerSettings getParameter extensions w of
        Inl e \<Rightarrow> Inl e
      | Inr first \<Rightarrow>
          (case initialize managerSettings getParameter extensions
                  ((snd first)\<lparr>pluginCalls := pluginCalls w\<rparr>) of
             Inl e \<Rightarrow> Inl e
           | Inr second \<Rightarrow> Inr (first, second)))"

text \<open>
  What an initialization leaves to be seen: the error, or the rule sequence and the
  manager's plugin list.
\<close>

definition observable :: "error + nat \<times> 'r World \<Rightarrow> error + 'r list \<times> 'r Plugin list" where
  "observable result =
     (case result of
        Inl e \<Rightarrow> Inl e
      | Inr res \<Rightarrow> Inr (rulesOf res, pluginList (pluginCalls (snd res))))"

section \<open>Concrete extensions\<close>

text \<open>
  Extensions on which the theorems below are instantiated: input rules are strings, the
  parameter object is the unit value. \<open>Bold\<close> and \<open>Heading\<close> contribute rules,
  \<open>Muted\<close> excludes its own input rules, \<open>Plain\<close> has no
  \<^verbatim>\<open>createNodeViews\<close> hook and no exclude object, \<open>Broken\<close> has the hook and no
  exclude object.
\<close>

definition exampleSettings :: "bool option \<Rightarrow> Settings" where
  "exampleSettings flag = \<lparr>exclude = Some \<lparr>inputRules = flag\<rparr>\<rparr>"

definition noSettings :: Settings where
  "noSettings = \<lparr>exclude = None\<rparr>"

definition exampleExtension ::
  "string \<Rightarrow> Settings \<Rightarrow> string list option \<Rightarrow> (unit, string) Extension" where
  "exampleExtension n s rs =
     \<lparr>name = n, priority = 3, settings = s,
      parameter = \<lparr>createNodeViews = map_option (\<lambda>xs p e. xs) rs\<rparr>\<rparr>"

definition Bold :: "(unit, string) Extension" where
  "Bold = exampleExtension ''bold'' (exampleSettings None) (Some [''**'', ''__''])"

definition Heading :: "(unit, string) Extension" where
  "Heading = exampleExtension ''heading'' (exampleSettings (Some False)) (Some [''#''])"

definition Muted :: "(unit, string) Extension" where
  "Muted = exampleExtension ''muted'' (exampleSettings (Some True)) (Some [''~~''])"

definition Plain :: "(unit, string) Extension" where
  "Plain = exampleExtension ''plain'' noSettings None"

definition Broken :: "(unit, string) Extension" where
  "Broken = exampleExtension ''broken'' noSettings (Some [''!''])"

definition emptyWorld :: "string World" where
  "emptyWorld = \<lparr>arrays = [], pluginCalls = []\<rparr>"

definition Aggregator :: "(unit, string) Extension" where
  "Aggregator = NodeViewsExtension 4 (exampleSettings None)"

definition exampleActions :: "string \<Rightarrow> Action" where
  "exampleActions actionName =
     \<lparr>isActive = (\<lambda>attrs. actionName = ''toggleHeading'' \<and> attrs = Some [(''level'', 2)]),
      isEnabled = (\<lambda>u. actionName \<noteq> ''undo'')\<rparr>"

section \<open>Properties of the skip check\<close>

lemma truthy_iff: "truthy v \<longleftrightarrow> v = Some True"
  by (cases v) (simp_all add: truthy_def)

lemma truthy_managerExclude:
  "truthy (managerExclude managerSettings) = managerExcludesInputRules managerSettings"
  by (simp add: truthy_iff managerExclude_def managerExcludesInputRules_def split: option.split)

lemma skipCondition_True_iff:
  "skipCondition managerSettings extension = Inr True \<longleftrightarrow> skipped managerSettings extension"
  unfolding skipCondition_def truthy_managerExclude lacksCreateNodeViews_def
    extensionExcludesInputRules_def skipped_def
  by (auto simp: truthy_iff split: option.split)

lemma skipCondition_fault_iff:
  "skipCondition managerSettings extension = Inl e \<longleftrightarrow>
     e = TypeError \<and> faulting managerSettings extension"
  unfolding skipCondition_def truthy_managerExclude lacksCreateNodeViews_def faulting_def
    hasExclude_def
  by (auto split: option.split)

lemma skipCondition_cases:
  "skipCondition managerSettings extension =
     (if faulting managerSettings extension then Inl TypeError
      else Inr (skipped managerSettings extension))"
proof (cases "skipCondition managerSettings extension")
  case (Inl e)
  then show ?thesis by (simp add: skipCondition_fault_iff)
next
  case (Inr b)
  then have "\<not> faulting managerSettings extension"
    using skipCondition_fault_iff [of managerSettings extension TypeError] by simp
  moreover have "b = skipped managerSettings extension"
    using Inr skipCondition_True_iff [of managerSettings extension] by (cases b) simp_all
  ultimately show ?thesis using Inr by simp
qed

lemma forEachExtension_cases:
  "forEachExtension managerSettings getParameter rules extension h =
     (if faulting managerSettings extension then Inl TypeError
      else if skipped managerSettings extension then Inr h
      else Inr (push rules (contribution getParameter extension) h))"
  by (auto simp: forEachExtension_def skipCondition_cases contribution_def skipped_def
      lacksCreateNodeViews_def split: option.split)

section \<open>The harvesting loop in closed form\<close>

lemma push_Nil: "push a [] h = h"
  by (simp add: push_def)

lemma push_push: "push a ys (push a xs h) = push a (xs @ ys) h"
  by (cases "a < length h") (simp_all add: push_def list_update_beyond)

lemma harvest_Nil: "harvest managerSettings getParameter [] = []"
  by (simp add: harvest_def)

lemma harvest_Cons:
  "harvest managerSettings getParameter (extension # extensions) =
     (if skipped managerSettings extension then []
      else contribution getParameter extension) @
     harvest managerSettings getParameter extensions"
  by (simp add: harvest_def)

lemma harvest_append:
  "harvest managerSettings getParameter (xs @ ys) =
     harvest managerSettings getParameter xs @ harvest managerSettings getParameter ys"
  by (simp add: harvest_def)

lemma extensionLoop_cases:
  "extensionLoop managerSettings getParameter rules extensions h =
     (if list_ex (faulting managerSettings) extensions then Inl TypeError
      else Inr (push rules (harvest managerSettings getParameter extensions) h))"
proof (induction extensions arbitrary: h)
  case Nil
  show ?case by (simp add: harvest_Nil push_Nil)
next
  case (Cons extension extensions)
  show ?case
    by (simp add: forEachExtension_cases Cons.IH harvest_Cons push_push push_Nil)
qed

lemma push_fresh: "push (length h) xs (h @ [[]]) = h @ [xs]"
  by (simp add: push_def)

lemma initialize_cases:
  "initialize managerSettings getParameter extensions w =
     (if list_ex (faulting managerSettings) extensions then Inl TypeError
      else Inr (length (arrays w),
        \<lparr>arrays = arrays w @ [harvest managerSettings getParameter extensions],
         pluginCalls = pluginCalls w @
           [[InputRulesPlugin (harvest managerSettings getParameter extensions)]]\<rparr>))"
  by (simp add: initialize_def onInitialize_def extensionLoop_cases push_fresh
      afterExtensionLoop_def addPlugins_def)

lemma managerExcludes_skipped:
  "managerExcludesInputRules managerSettings \<Longrightarrow> skipped managerSettings extension"
  by (simp add: skipped_def)

lemma managerExcludes_not_faulting:
  "managerExcludesInputRules managerSettings \<Longrightarrow> \<not> faulting managerSettings extension"
  by (simp add: faulting_def)


lemma hasExclude_no_fault:
  "\<forall>extension \<in> set extensions. hasExclude extension \<Longrightarrow>
     \<not> list_ex (faulting managerSettings) extensions"
  by (auto simp: list_ex_iff faulting_def)

lemmas example_defs = exampleExtension_def exampleSettings_def noSettings_def Bold_def Heading_def
  Muted_def Plain_def Broken_def

lemmas check_defs = skipCondition_def managerExclude_def truthy_def forEachExtension_def
  push_def info_def managerExcludesInputRules_def lacksCreateNodeViews_def
  extensionExcludesInputRules_def hasExclude_def

lemma observable_initialize:
  "observable (initialize managerSettings getParameter extensions w) =
     (if list_ex (faulting managerSettings) extensions then Inl TypeError
      else Inr (harvest managerSettings getParameter extensions,
        pluginList (pluginCalls w) @
          [InputRulesPlugin (harvest managerSettings getParameter extensions)]))"
  by (simp add: observable_def initialize_cases rulesOf_def pluginList_def)

section \<open>The order of the Manager\<close>

lemma insort_key_index:
  assumes "\<forall>z \<in> set zs. n < fst z"
  shows "map snd (insort_key (\<lambda>(i, e). (f e, i)) (n, x) zs) = insort_key f x (map snd zs)"
  using assms
proof (induction zs)
  case Nil
  show ?case by simp
next
  case (Cons z zs)
  obtain i e where z: "z = (i, e)" by (cases z)
  with Cons.prems have "n < i" by simp
  then have "((f x, n) \<le> (f e, i)) = (f x \<le> f e)"
    by (auto simp: less_eq_prod_def)
  with Cons z show ?case by simp
qed

lemma sort_key_enumerate:
  "map snd (sort_key (\<lambda>(i, e). (f e, i)) (enumerate n xs)) = sort_key f xs"
proof (induction xs arbitrary: n)
  case Nil
  show ?case by simp
next
  case (Cons x xs)
  have "\<forall>z \<in> set (sort_key (\<lambda>(i, e). (f e, i)) (enumerate (Suc n) xs)). n < fst z"
    by (auto simp: in_set_enumerate_eq)
  then show ?case
    by (simp add: insort_key_index Cons.IH)
qed

lemma sortExtensions_sort_key: "sortExtensions extensions = sort_key priority extensions"
  by (simp add: sortExtensions_def sort_key_enumerate)

lemma visitedBy_append:
  "visitedBy r (xs @ ys) = visitedBy r xs @ visitedBy r ys"
  by (induction r xs rule: visitedBy.induct) simp_all

lemma visitedBy_visits:
  "visitedBy r (map (\<lambda>visited. ForEachExtension q (name visited)) ordered) =
     (if q = r then map name ordered else [])"
  by (induction ordered) auto

lemma visitedBy_hookCalls_aux:
  "visitedBy r (concat (map (\<lambda>requesting.
       OnInitialize (name requesting) #
       map (\<lambda>visited. ForEachExtension (name requesting) (name visited)) ordered @
       [AfterExtensionLoop (name requesting)]) requesters)) =
   concat (map (\<lambda>requesting. if name requesting = r then map name ordered else []) requesters)"
  by (induction requesters) (simp_all add: visitedBy_append visitedBy_visits)

lemma concat_single_match:
  "distinct (map f xs) \<Longrightarrow> x \<in> set xs \<Longrightarrow>
     concat (map (\<lambda>q. if f q = f x then ys else []) xs) = ys"
proof (induction xs)
  case Nil
  then show ?case by simp
next
  case (Cons a xs)
  show ?case
  proof (cases "f a = f x")
    case True
    from Cons.prems(1) have "f a \<notin> f ` set xs" by simp
    with True have "\<forall>q \<in> set xs. f q \<noteq> f x" by (metis imageI)
    then have "concat (map (\<lambda>q. if f q = f x then ys else []) xs) = []"
      by (induction xs) simp_all
    with True show ?thesis by simp
  next
    case False
    with Cons show ?thesis by auto
  qed
qed

lemma visitedBy_hookCalls:
  "distinct (map name ordered) \<Longrightarrow> requesting \<in> set ordered \<Longrightarrow>
     visitedBy (name requesting) (hookCalls ordered) = map name ordered"
  by (simp add: hookCalls_def visitedBy_hookCalls_aux concat_single_match)

lemma distinct_names_sort:
  "distinct (map name (sort_key priority extensions)) = distinct (map name extensions)"
proof -
  have "mset (map name (sort_key priority extensions)) = mset (map name extensions)"
    by simp
  then show ?thesis by (rule mset_eq_imp_distinct_iff)
qed

lemma hookCalls_visit:
  "requesting \<in> set ordered \<Longrightarrow> visited \<in> set ordered \<Longrightarrow>
     ForEachExtension (name requesting) (name visited) \<in> set (hookCalls ordered)"
  by (force simp: hookCalls_def)

lemma NodeViewsExtension_skipped: "skipped managerSettings (NodeViewsExtension low resolved)"
  by (simp add: skipped_def lacksCreateNodeViews_def NodeViewsExtension_def)

lemma NodeViewsExtension_not_faulting:
  "\<not> faulting managerSettings (NodeViewsExtension low resolved)"
  by (simp add: faulting_def lacksCreateNodeViews_def NodeViewsExtension_def)

section \<open>The menu bar\<close>

lemma getButtonState_active: "activeVariant (getButtonState active inverseArg) = active"
  by (cases inverseArg) (auto simp: getButtonState_def activeVariant_def)

lemma MenuBar_nth:
  assumes "i < length menuItems" and "menuItems ! i = (actionName, (icon, sub), attrs)"
  shows "MenuBar actions inverseArg activateLink ! i =
     \<lparr>indexProp = Some i, keyProp = Some i, IconProp = icon, subText = sub,
      state = getButtonState (isActive (actions actionName) attrs) inverseArg,
      disabled = Some (\<not> isEnabled (actions actionName) ()),
      onClick = RunAction actionName attrs,
      inverseProp = None, withPadding = Some ''right''\<rparr>"
  using assms by (simp add: MenuBar_def nth_append nth_enumerate_eq)

section \<open>The claims\<close>

text \<open>
  Claim C1, as stated, has the rules appended whenever none of the three conditions
  holds. For an extension that has a \<^verbatim>\<open>createNodeViews\<close> hook and no exclude object
  in its settings, under manager settings that do not exclude inputRules, none of the
  three holds and nothing is appended: reading \<^verbatim>\<open>extension.settings.exclude.inputRules\<close>
  throws.
\<close>

theorem forEachExtension_appends_counterexample:
  "\<not> managerExcludesInputRules noSettings \<and> \<not> lacksCreateNodeViews Broken \<and>
   \<not> extensionExcludesInputRules Broken \<and>
   skipCondition noSettings Broken = Inl TypeError \<and>
   forEachExtension noSettings (\<lambda>e. ()) 0 Broken [[''a'']] = Inl TypeError"
  by (simp add: example_defs check_defs)

text \<open>
  Claim C1, amended. A visited extension is skipped exactly when the manager-wide
  settings exclude inputRules, or the extension has no \<^verbatim>\<open>createNodeViews\<close> hook, or
  its own settings exclude inputRules; a skipped visit leaves the accumulator as it is.
  When none of the three holds and the extension's settings carry an exclude object, the
  rules its \<^verbatim>\<open>createNodeViews\<close> returns are appended to the accumulator. When the
  first two do not hold and the settings carry no exclude object, the visit throws a
  TypeError.
\<close>

theorem forEachExtension_skip_rule:
  "(skipCondition managerSettings extension = Inr True \<longleftrightarrow>
      managerExcludesInputRules managerSettings \<or> lacksCreateNodeViews extension \<or>
      extensionExcludesInputRules extension) \<and>
   (skipCondition managerSettings extension = Inr True \<longrightarrow>
      forEachExtension managerSettings getParameter rules extension h = Inr h) \<and>
   (hasExclude extension \<and> \<not> managerExcludesInputRules managerSettings \<and>
    \<not> lacksCreateNodeViews extension \<and> \<not> extensionExcludesInputRules extension \<longrightarrow>
      (\<exists>create. createNodeViews (parameter extension) = Some create \<and>
         forEachExtension managerSettings getParameter rules extension h =
           Inr (h[rules := h ! rules @ create (getParameter extension) (info extension)]))) \<and>
   (\<not> hasExclude extension \<and> \<not> managerExcludesInputRules managerSettings \<and>
    \<not> lacksCreateNodeViews extension \<longrightarrow>
      forEachExtension managerSettings getParameter rules extension h = Inl TypeError)"
proof (intro conjI impI)
  show "skipCondition managerSettings extension = Inr True \<longleftrightarrow>
      managerExcludesInputRules managerSettings \<or> lacksCreateNodeViews extension \<or>
      extensionExcludesInputRules extension"
    by (simp add: skipCondition_True_iff skipped_def)
next
  assume "skipCondition managerSettings extension = Inr True"
  then show "forEachExtension managerSettings getParameter rules extension h = Inr h"
    by (simp add: forEachExtension_def)
next
  assume a: "hasExclude extension \<and> \<not> managerExcludesInputRules managerSettings \<and>
    \<not> lacksCreateNodeViews extension \<and> \<not> extensionExcludesInputRules extension"
  then obtain create where c: "createNodeViews (parameter extension) = Some create"
    by (auto simp: lacksCreateNodeViews_def)
  from a have "\<not> faulting managerSettings extension" "\<not> skipped managerSettings extension"
    by (simp_all add: faulting_def skipped_def)
  then have "forEachExtension managerSettings getParameter rules extension h =
      Inr (h[rules := h ! rules @ create (getParameter extension) (info extension)])"
    by (simp add: forEachExtension_cases contribution_def c push_def)
  with c show "\<exists>create. createNodeViews (parameter extension) = Some create \<and>
      forEachExtension managerSettings getParameter rules extension h =
        Inr (h[rules := h ! rules @ create (getParameter extension) (info extension)])"
    by blast
next
  assume "\<not> hasExclude extension \<and> \<not> managerExcludesInputRules managerSettings \<and>
    \<not> lacksCreateNodeViews extension"
  then have "faulting managerSettings extension"
    by (simp add: faulting_def)
  then show "forEachExtension managerSettings getParameter rules extension h = Inl TypeError"
    by (simp add: forEachExtension_cases)
qed

theorem forEachExtension_skip_rule_witness:
  "skipCondition noSettings Muted = Inr True \<and>
   forEachExtension noSettings (\<lambda>e. ()) 0 Muted [[''a'']] = Inr [[''a'']] \<and>
   hasExclude Bold \<and> \<not> managerExcludesInputRules noSettings \<and> \<not> lacksCreateNodeViews Bold \<and>
   \<not> extensionExcludesInputRules Bold \<and>
   forEachExtension noSettings (\<lambda>e. ()) 0 Bold [[''a'']] = Inr [[''a'', ''**'', ''__'']] \<and>
   \<not> hasExclude Broken \<and> \<not> lacksCreateNodeViews Broken \<and>
   forEachExtension noSettings (\<lambda>e. ()) 0 Broken [[''a'']] = Inl TypeError"
  using forEachExtension_skip_rule [of noSettings Muted "\<lambda>e. ()" 0 "[[''a'']]"]
    forEachExtension_skip_rule [of noSettings Bold "\<lambda>e. ()" 0 "[[''a'']]"]
    forEachExtension_skip_rule [of noSettings Broken "\<lambda>e. ()" 0 "[[''a'']]"]
  by (simp add: example_defs check_defs)

text \<open>
  Claim C2. When the manager-wide settings exclude inputRules, every visit leaves the
  accumulator unchanged, whatever the visited extensions are, nothing is harvested, and
  \<^verbatim>\<open>afterExtensionLoop\<close> still registers the plugin, with an empty rule list.
\<close>

theorem manager_exclude_harvests_nothing:
  assumes "managerExcludesInputRules managerSettings"
  shows "forEachExtension managerSettings getParameter rules extension h = Inr h \<and>
    harvest managerSettings getParameter extensions = [] \<and>
    initialize managerSettings getParameter extensions w =
      Inr (length (arrays w),
        \<lparr>arrays = arrays w @ [[]],
         pluginCalls = pluginCalls w @ [[InputRulesPlugin []]]\<rparr>)"
proof (intro conjI)
  show "forEachExtension managerSettings getParameter rules extension h = Inr h"
    using assms
    by (simp add: forEachExtension_cases managerExcludes_skipped managerExcludes_not_faulting)
  have "\<not> list_ex (faulting managerSettings) extensions"
    using assms by (simp add: list_ex_iff managerExcludes_not_faulting)
  moreover show "harvest managerSettings getParameter extensions = []"
    using assms by (simp add: harvest_def managerExcludes_skipped)
  ultimately show "initialize managerSettings getParameter extensions w =
      Inr (length (arrays w),
        \<lparr>arrays = arrays w @ [[]],
         pluginCalls = pluginCalls w @ [[InputRulesPlugin []]]\<rparr>)"
    by (simp add: initialize_cases)
qed

theorem manager_exclude_harvests_nothing_witness:
  "managerExcludesInputRules (exampleSettings (Some True)) \<and>
   forEachExtension (exampleSettings (Some True)) (\<lambda>e. ()) 0 Bold [[''a'']] = Inr [[''a'']] \<and>
   initialize (exampleSettings (Some True)) (\<lambda>e. ()) [Bold, Broken, Heading] emptyWorld =
     Inr (0, \<lparr>arrays = [[]], pluginCalls = [[InputRulesPlugin []]]\<rparr>)"
proof -
  have m: "managerExcludesInputRules (exampleSettings (Some True))"
    by (simp add: managerExcludesInputRules_def exampleSettings_def)
  show ?thesis
    using m manager_exclude_harvests_nothing [OF m, of "\<lambda>e. ()" 0 Bold "[[''a'']]"
        "[Bold, Broken, Heading]" emptyWorld]
    by (simp add: emptyWorld_def)
qed




text \<open>
  Claim C4. The rule sequence of the aggregated plugin is the concatenation, in visiting
  order, of what the \<^verbatim>\<open>createNodeViews\<close> hooks of the extensions that are not
  skipped return; for the visited extensions Bold then Heading, the rules of Bold come
  first and the rules of Heading after them.
\<close>

theorem harvest_order:
  "(\<forall>res. initialize managerSettings getParameter extensions w = Inr res \<longrightarrow>
      rulesOf res =
        concat (map (contribution getParameter)
          (filter (\<lambda>extension. \<not> skipped managerSettings extension) extensions)) \<and>
      last (pluginList (pluginCalls (snd res))) = InputRulesPlugin (rulesOf res)) \<and>
   (hasExclude bold \<and> hasExclude heading \<and>
    \<not> skipped managerSettings bold \<and> \<not> skipped managerSettings heading \<longrightarrow>
      (\<exists>res. initialize managerSettings getParameter [bold, heading] w = Inr res \<and>
         rulesOf res = contribution getParameter bold @ contribution getParameter heading))"
proof (intro conjI allI impI)
  fix res
  assume r: "initialize managerSettings getParameter extensions w = Inr res"
  then have nf: "\<not> list_ex (faulting managerSettings) extensions"
    by (auto simp: initialize_cases split: if_splits)
  with r have res: "res = (length (arrays w),
        \<lparr>arrays = arrays w @ [harvest managerSettings getParameter extensions],
         pluginCalls = pluginCalls w @
           [[InputRulesPlugin (harvest managerSettings getParameter extensions)]]\<rparr>)"
    by (simp add: initialize_cases)
  show "rulesOf res =
        concat (map (contribution getParameter)
          (filter (\<lambda>extension. \<not> skipped managerSettings extension) extensions))"
    by (simp add: res rulesOf_def harvest_def)
  show "last (pluginList (pluginCalls (snd res))) = InputRulesPlugin (rulesOf res)"
    by (simp add: res rulesOf_def pluginList_def)
next
  assume a: "hasExclude bold \<and> hasExclude heading \<and>
    \<not> skipped managerSettings bold \<and> \<not> skipped managerSettings heading"
  then have "\<not> list_ex (faulting managerSettings) [bold, heading]"
    by (simp add: faulting_def)
  then have "initialize managerSettings getParameter [bold, heading] w =
      Inr (length (arrays w),
        \<lparr>arrays = arrays w @ [harvest managerSettings getParameter [bold, heading]],
         pluginCalls = pluginCalls w @
           [[InputRulesPlugin (harvest managerSettings getParameter [bold, heading])]]\<rparr>)"
    by (simp only: initialize_cases if_False)
  moreover have "harvest managerSettings getParameter [bold, heading] =
      contribution getParameter bold @ contribution getParameter heading"
    using a by (simp add: harvest_def)
  ultimately show "\<exists>res. initialize managerSettings getParameter [bold, heading] w = Inr res \<and>
         rulesOf res = contribution getParameter bold @ contribution getParameter heading"
    by (simp add: rulesOf_def)
qed

theorem harvest_order_witness:
  "hasExclude Bold \<and> hasExclude Heading \<and>
   \<not> skipped noSettings Bold \<and> \<not> skipped noSettings Heading \<and>
   initialize noSettings (\<lambda>e. ()) [Bold, Heading] emptyWorld =
     Inr (0, \<lparr>arrays = [[''**'', ''__'', ''#'']],
              pluginCalls = [[InputRulesPlugin [''**'', ''__'', ''#'']]]\<rparr>) \<and>
   contribution (\<lambda>e. ()) Bold @ contribution (\<lambda>e. ()) Heading = [''**'', ''__'', ''#''] \<and>
   initialize noSettings (\<lambda>e. ()) [Heading, Muted, Plain, Bold] emptyWorld =
     Inr (0, \<lparr>arrays = [[''#'', ''**'', ''__'']],
              pluginCalls = [[InputRulesPlugin [''#'', ''**'', ''__'']]]\<rparr>) \<and>
   rulesOf (0, \<lparr>arrays = [[''#'', ''**'', ''__'']],
              pluginCalls = [[InputRulesPlugin [''#'', ''**'', ''__'']]]\<rparr>) =
     concat (map (contribution (\<lambda>e. ()))
       (filter (\<lambda>extension. \<not> skipped noSettings extension) [Heading, Muted, Plain, Bold]))"
proof -
  have i: "initialize noSettings (\<lambda>e. ()) [Heading, Muted, Plain, Bold] emptyWorld =
     Inr (0, \<lparr>arrays = [[''#'', ''**'', ''__'']],
              pluginCalls = [[InputRulesPlugin [''#'', ''**'', ''__'']]]\<rparr>)"
    by (simp add: initialize_def onInitialize_def afterExtensionLoop_def addPlugins_def
        emptyWorld_def example_defs check_defs)
  have j: "initialize noSettings (\<lambda>e. ()) [Bold, Heading] emptyWorld =
     Inr (0, \<lparr>arrays = [[''**'', ''__'', ''#'']],
              pluginCalls = [[InputRulesPlugin [''**'', ''__'', ''#'']]]\<rparr>)"
    by (simp add: initialize_def onInitialize_def afterExtensionLoop_def addPlugins_def
        emptyWorld_def example_defs check_defs)
  have x: "hasExclude Bold \<and> hasExclude Heading \<and>
      \<not> skipped noSettings Bold \<and> \<not> skipped noSettings Heading"
    by (simp add: skipped_def example_defs check_defs)
  have c: "contribution (\<lambda>e. ()) Bold @ contribution (\<lambda>e. ()) Heading = [''**'', ''__'', ''#'']"
    by (simp add: contribution_def example_defs)
  show ?thesis
    using i j x c harvest_order [of noSettings "\<lambda>e. ()" "[Heading, Muted, Plain, Bold]" emptyWorld
        Bold Heading]
    by simp
qed

text \<open>
  Claim C5. For registered extensions with distinct names, the Manager visits, for
  every requesting extension, the extensions in the order of the stable sort by
  priority: a permutation of the registered extensions, ascending in priority, in which
  the extensions of one priority keep their registration order.
\<close>

theorem visiting_order:
  assumes "distinct (map name extensions)" and "requesting \<in> set extensions"
  shows "outcome (createManager extensions) = Inr (sort_key priority extensions) \<and>
    visitedBy (name requesting) (hooksRun (createManager extensions)) =
      map name (sort_key priority extensions) \<and>
    mset (sort_key priority extensions) = mset extensions \<and>
    sorted (map priority (sort_key priority extensions)) \<and>
    filter (\<lambda>extension. priority extension = p) (sort_key priority extensions) =
      filter (\<lambda>extension. priority extension = p) extensions"
proof -
  have "requesting \<in> set (sort_key priority extensions)"
    using assms(2) by simp
  moreover have "distinct (map name (sort_key priority extensions))"
    using assms(1) by (simp only: distinct_names_sort)
  ultimately have "visitedBy (name requesting) (hookCalls (sort_key priority extensions)) =
      map name (sort_key priority extensions)"
    by (simp only: visitedBy_hookCalls)
  then show ?thesis
    using assms(1) by (simp add: createManager_def Let_def sortExtensions_sort_key sort_key_stable)
qed

theorem visiting_order_witness:
  "distinct (map name [Aggregator, Bold, Heading]) \<and>
   Aggregator \<in> set [Aggregator, Bold, Heading] \<and>
   outcome (createManager [Aggregator, Bold, Heading]) = Inr [Bold, Heading, Aggregator] \<and>
   visitedBy ''inputRules'' (hooksRun (createManager [Aggregator, Bold, Heading])) =
     [''bold'', ''heading'', ''inputRules'']"
proof -
  have d: "distinct (map name [Aggregator, Bold, Heading])"
    by (simp add: example_defs Aggregator_def NodeViewsExtension_def)
  have m: "Aggregator \<in> set [Aggregator, Bold, Heading]"
    by simp
  have s: "sort_key priority [Aggregator, Bold, Heading] = [Bold, Heading, Aggregator]"
    by (simp add: example_defs Aggregator_def NodeViewsExtension_def)
  have n: "name Aggregator = ''inputRules''" "name Bold = ''bold''" "name Heading = ''heading''"
    by (simp_all add: example_defs Aggregator_def NodeViewsExtension_def)
  have "outcome (createManager [Aggregator, Bold, Heading]) =
      Inr (sort_key priority [Aggregator, Bold, Heading]) \<and>
    visitedBy (name Aggregator) (hooksRun (createManager [Aggregator, Bold, Heading])) =
      map name (sort_key priority [Aggregator, Bold, Heading])"
    using visiting_order [OF d m, of 3] by blast
  then show ?thesis
    using d m by (simp only: s n list.map)
qed

text \<open>
  Claim C6. The initialization is a function of the manager settings, the parameter
  provider, the visited extensions and the calls of \<^verbatim>\<open>addPlugins\<close> made before it: it
  does not depend on the arrays earlier initializations have left. Run twice in a row, it
  gives the same rule sequence and the same plugin list both times (or fails both times
  with the same error), and the second run leaves the rules of the first as they were.
\<close>

theorem initialize_deterministic:
  "(pluginCalls w1 = pluginCalls w2 \<longrightarrow>
      observable (initialize managerSettings getParameter extensions w1) =
      observable (initialize managerSettings getParameter extensions w2)) \<and>
   (\<forall>first second.
      initializeTwice managerSettings getParameter extensions w = Inr (first, second) \<longrightarrow>
        rulesOf first = rulesOf second \<and>
        pluginCalls (snd first) = pluginCalls (snd second) \<and>
        arrays (snd second) ! fst first = rulesOf first) \<and>
   (\<forall>e. initialize managerSettings getParameter extensions w = Inl e \<longleftrightarrow>
        initializeTwice managerSettings getParameter extensions w = Inl e) \<and>
   ((\<forall>extension \<in> set extensions. hasExclude extension) \<longrightarrow>
      (\<exists>both. initializeTwice managerSettings getParameter extensions w = Inr both))"
proof (intro conjI allI impI)
  assume "pluginCalls w1 = pluginCalls w2"
  then show "observable (initialize managerSettings getParameter extensions w1) =
      observable (initialize managerSettings getParameter extensions w2)"
    by (simp add: observable_initialize)
next
  fix first second
  assume t: "initializeTwice managerSettings getParameter extensions w = Inr (first, second)"
  then have nf: "\<not> list_ex (faulting managerSettings) extensions"
    by (auto simp: initializeTwice_def initialize_cases split: if_splits)
  let ?rs = "harvest managerSettings getParameter extensions"
  let ?p = "pluginCalls w @ [[InputRulesPlugin ?rs]]"
  from t nf have f: "first = (length (arrays w), \<lparr>arrays = arrays w @ [?rs], pluginCalls = ?p\<rparr>)"
    and s: "second = (Suc (length (arrays w)),
        \<lparr>arrays = arrays w @ [?rs, ?rs], pluginCalls = ?p\<rparr>)"
    by (auto simp: initializeTwice_def initialize_cases)
  show "rulesOf first = rulesOf second"
    by (simp add: f s rulesOf_def nth_append)
  show "pluginCalls (snd first) = pluginCalls (snd second)"
    by (simp add: f s)
  show "arrays (snd second) ! fst first = rulesOf first"
    by (simp add: f s rulesOf_def nth_append)
next
  fix e
  show "initialize managerSettings getParameter extensions w = Inl e \<longleftrightarrow>
        initializeTwice managerSettings getParameter extensions w = Inl e"
    by (auto simp: initializeTwice_def initialize_cases)
next
  assume "\<forall>extension \<in> set extensions. hasExclude extension"
  then have "\<not> list_ex (faulting managerSettings) extensions"
    by (rule hasExclude_no_fault)
  then show "\<exists>both. initializeTwice managerSettings getParameter extensions w = Inr both"
    by (simp add: initializeTwice_def initialize_cases)
qed

theorem initialize_deterministic_witness:
  "initializeTwice noSettings (\<lambda>e. ()) [Bold, Heading] emptyWorld =
     Inr ((0, \<lparr>arrays = [[''**'', ''__'', ''#'']],
               pluginCalls = [[InputRulesPlugin [''**'', ''__'', ''#'']]]\<rparr>),
          (1, \<lparr>arrays = [[''**'', ''__'', ''#''], [''**'', ''__'', ''#'']],
               pluginCalls = [[InputRulesPlugin [''**'', ''__'', ''#'']]]\<rparr>)) \<and>
   rulesOf (0, \<lparr>arrays = [[''**'', ''__'', ''#'']],
               pluginCalls = [[InputRulesPlugin [''**'', ''__'', ''#'']]]\<rparr>) =
   rulesOf (1, \<lparr>arrays = [[''**'', ''__'', ''#''], [''**'', ''__'', ''#'']],
               pluginCalls = [[InputRulesPlugin [''**'', ''__'', ''#'']]]\<rparr>) \<and>
   pluginCalls emptyWorld = pluginCalls (emptyWorld\<lparr>arrays := [[''x'']]\<rparr>) \<and>
   observable (initialize noSettings (\<lambda>e. ()) [Bold, Heading] emptyWorld) =
   observable (initialize noSettings (\<lambda>e. ()) [Bold, Heading] (emptyWorld\<lparr>arrays := [[''x'']]\<rparr>)) \<and>
   hasExclude Bold \<and> hasExclude Heading"
proof -
  have x: "hasExclude Bold \<and> hasExclude Heading"
    by (simp add: example_defs hasExclude_def)
  have i: "initializeTwice noSettings (\<lambda>e. ()) [Bold, Heading] emptyWorld =
     Inr ((0, \<lparr>arrays = [[''**'', ''__'', ''#'']],
               pluginCalls = [[InputRulesPlugin [''**'', ''__'', ''#'']]]\<rparr>),
          (1, \<lparr>arrays = [[''**'', ''__'', ''#''], [''**'', ''__'', ''#'']],
               pluginCalls = [[InputRulesPlugin [''**'', ''__'', ''#'']]]\<rparr>))"
    by (simp add: initializeTwice_def initialize_def onInitialize_def afterExtensionLoop_def
        addPlugins_def emptyWorld_def example_defs check_defs)
  have c: "pluginCalls emptyWorld = pluginCalls (emptyWorld\<lparr>arrays := [[''x'']]\<rparr>)"
    by simp
  show ?thesis
    using i c x initialize_deterministic [of emptyWorld "emptyWorld\<lparr>arrays := [[''x'']]\<rparr>"
        noSettings "\<lambda>e. ()" "[Bold, Heading]" emptyWorld]
    by simp
qed

text \<open>
  Claim C7. Registering two extensions with the same name makes the construction of the
  Manager fail with a ConfigurationError, and no hook has run.
\<close>

theorem duplicate_names_rejected:
  assumes "i < j" and "j < length extensions"
    and "name (extensions ! i) = name (extensions ! j)"
  shows "createManager extensions = \<lparr>hooksRun = [], outcome = Inl ConfigurationError\<rparr>"
proof -
  have "\<not> distinct (map name extensions)"
  proof
    assume "distinct (map name extensions)"
    then have "(map name extensions ! i = map name extensions ! j) = (i = j)"
      using assms(1,2) by (intro nth_eq_iff_index_eq) simp_all
    with assms show False by simp
  qed
  then show ?thesis by (simp add: createManager_def)
qed

theorem duplicate_names_rejected_witness:
  "(0::nat) < 2 \<and> (2::nat) < length [Bold, Heading, Bold, Muted] \<and>
   name ([Bold, Heading, Bold, Muted] ! 0) = name ([Bold, Heading, Bold, Muted] ! 2) \<and>
   createManager [Bold, Heading, Bold, Muted] =
     \<lparr>hooksRun = [], outcome = Inl ConfigurationError\<rparr>"
proof -
  have h: "(0::nat) < 2" "(2::nat) < length [Bold, Heading, Bold, Muted]"
    "name ([Bold, Heading, Bold, Muted] ! 0) = name ([Bold, Heading, Bold, Muted] ! 2)"
    by simp_all
  show ?thesis
    using h duplicate_names_rejected [OF h] by simp
qed

text \<open>
  Claim C8. The Manager's loop visits the requesting extension itself: for the
  aggregating extension, named inputRules, \<^verbatim>\<open>forEachExtension\<close> is called on the
  extension itself. The extension declares no \<^verbatim>\<open>createNodeViews\<close> hook, so that
  visit leaves the rules unchanged, and a loop that visits it gives what the loop without
  that visit gives.
\<close>

theorem self_visit_harmless:
  "(distinct (map name extensions) \<and>
    (NodeViewsExtension low resolved :: ('p, 'r) Extension) \<in> set extensions \<longrightarrow>
      ForEachExtension ''inputRules'' ''inputRules'' \<in> set (hooksRun (createManager extensions))) \<and>
   createNodeViews (parameter (NodeViewsExtension low resolved :: ('p, 'r) Extension)) = None \<and>
   forEachExtension managerSettings (getParameter :: ('p, 'r) Extension \<Rightarrow> 'p) rules
     (NodeViewsExtension low resolved) h = Inr h \<and>
   extensionLoop managerSettings getParameter rules
     (before @ NodeViewsExtension low resolved # after) h =
   extensionLoop managerSettings getParameter rules (before @ after) h"
proof (intro conjI impI)
  let ?self = "NodeViewsExtension low resolved :: ('p, 'r) Extension"
  assume a: "distinct (map name extensions) \<and> ?self \<in> set extensions"
  then have "?self \<in> set (sort_key priority extensions)" by simp
  then have "ForEachExtension (name ?self) (name ?self) \<in>
      set (hookCalls (sort_key priority extensions))"
    by (simp only: hookCalls_visit)
  moreover have "name ?self = ''inputRules''"
    by (simp add: NodeViewsExtension_def)
  ultimately show "ForEachExtension ''inputRules'' ''inputRules'' \<in>
      set (hooksRun (createManager extensions))"
    using a by (simp add: createManager_def Let_def sortExtensions_sort_key)
next
  show "createNodeViews (parameter (NodeViewsExtension low resolved :: ('p, 'r) Extension)) = None"
    by (simp add: NodeViewsExtension_def)
next
  show "forEachExtension managerSettings getParameter rules
     (NodeViewsExtension low resolved) h = Inr h"
    by (simp add: forEachExtension_cases NodeViewsExtension_skipped
        NodeViewsExtension_not_faulting)
next
  show "extensionLoop managerSettings getParameter rules
     (before @ NodeViewsExtension low resolved # after) h =
   extensionLoop managerSettings getParameter rules (before @ after) h"
    by (simp add: extensionLoop_cases NodeViewsExtension_skipped
        NodeViewsExtension_not_faulting harvest_append harvest_Cons)
qed

theorem self_visit_harmless_witness:
  "distinct (map name [Bold, Heading, Aggregator]) \<and>
   Aggregator \<in> set [Bold, Heading, Aggregator] \<and>
   ForEachExtension ''inputRules'' ''inputRules'' \<in>
     set (hooksRun (createManager [Bold, Heading, Aggregator])) \<and>
   extensionLoop noSettings (\<lambda>e. ()) 0 [Bold, Aggregator, Heading] [[]] =
     Inr [[''**'', ''__'', ''#'']]"
proof -
  have d: "distinct (map name [Bold, Heading, Aggregator])"
    by (simp add: example_defs Aggregator_def NodeViewsExtension_def)
  have l: "extensionLoop noSettings (\<lambda>e. ()) 0 [Bold, Heading] [[]] = Inr [[''**'', ''__'', ''#'']]"
    by (simp add: example_defs check_defs)
  show ?thesis
    using d l self_visit_harmless [of "[Bold, Heading, Aggregator]" 4 "exampleSettings None"
        noSettings "\<lambda>e. ()" 0 "[[]]" "[Bold]" "[Heading]"]
    by (simp add: Aggregator_def)
qed

text \<open>
  Claim C9. For every entry of \<^verbatim>\<open>menuItems\<close>, the item \<^verbatim>\<open>MenuBar\<close> renders is
  disabled exactly when \<^verbatim>\<open>isEnabled()\<close> of the entry's action is false, and its state
  is one of the active variants exactly when \<^verbatim>\<open>isActive(attrs)\<close> of the entry's
  action is true for the entry's attributes.
\<close>

theorem MenuBar_reflects_actions:
  assumes "i < length menuItems" and "menuItems ! i = (actionName, iconAndText, attrs)"
  shows "disabled (MenuBar actions inverseArg activateLink ! i) =
      Some (\<not> isEnabled (actions actionName) ()) \<and>
    buttonDisabled (MenuItem (MenuBar actions inverseArg activateLink ! i)) =
      (\<not> isEnabled (actions actionName) ()) \<and>
    activeVariant (state (MenuBar actions inverseArg activateLink ! i)) =
      isActive (actions actionName) attrs \<and>
    activeVariant (buttonState (MenuItem (MenuBar actions inverseArg activateLink ! i))) =
      isActive (actions actionName) attrs"
proof -
  obtain icon sub where "iconAndText = (icon, sub)" by (cases iconAndText)
  with assms have "MenuBar actions inverseArg activateLink ! i =
     \<lparr>indexProp = Some i, keyProp = Some i, IconProp = icon, subText = sub,
      state = getButtonState (isActive (actions actionName) attrs) inverseArg,
      disabled = Some (\<not> isEnabled (actions actionName) ()),
      onClick = RunAction actionName attrs,
      inverseProp = None, withPadding = Some ''right''\<rparr>"
    by (simp add: MenuBar_nth)
  then show ?thesis
    by (simp add: MenuItem_def getButtonState_active)
qed

theorem MenuBar_reflects_actions_witness:
  "(5::nat) < length menuItems \<and>
   menuItems ! 5 = (''toggleHeading'', (H2Icon, Some ''2''), Some [(''level'', 2)]) \<and>
   disabled (MenuBar exampleActions None (Callback ''activateLink'') ! 5) = Some False \<and>
   state (MenuBar exampleActions None (Callback ''activateLink'') ! 5) = ''active-default'' \<and>
   activeVariant (state (MenuBar exampleActions None (Callback ''activateLink'') ! 5)) \<and>
   (7::nat) < length menuItems \<and>
   menuItems ! 7 = (''undo'', (UndoAltIcon, None), None) \<and>
   buttonDisabled (MenuItem (MenuBar exampleActions None (Callback ''activateLink'') ! 7)) \<and>
   \<not> activeVariant (state (MenuBar exampleActions None (Callback ''activateLink'') ! 7))"
proof -
  have l5: "(5::nat) < length menuItems" and l7: "(7::nat) < length menuItems"
    by (simp_all add: menuItems_def)
  have m5: "menuItems ! 5 = (''toggleHeading'', (H2Icon, Some ''2''), Some [(''level'', 2)])"
    by (simp add: menuItems_def)
  have m7: "menuItems ! 7 = (''undo'', (UndoAltIcon, None), None)"
    by (simp add: menuItems_def)
  have s: "state (MenuBar exampleActions None (Callback ''activateLink'') ! 5) = ''active-default''"
    by (simp add: MenuBar_nth [OF l5 m5] getButtonState_def exampleActions_def)
  show ?thesis
    using l5 l7 m5 m7 s
      MenuBar_reflects_actions [OF l5 m5, of exampleActions None "Callback ''activateLink''"]
      MenuBar_reflects_actions [OF l7 m7, of exampleActions None "Callback ''activateLink''"]
    by (simp add: exampleActions_def)
qed




end
